theory Spec2Isabelle
  imports Main
begin

section \<open>URL checker: a shallow embedding of url\_checker.py and web\_scraper\_latest.py\<close>

text \<open>
  The program reads a file of URLs, fetches every URL that has no row in the
  \<open>results\<close> table yet, counts the \<open>script\<close> tags of each page, stores one row
  per URL and exports the table as CSV.

  Modelling decisions.
  \<^item> A Python \<open>str\<close> is a HOL \<open>string\<close>, one \<open>char\<close> per code point; the model
    covers the code points below 256.
  \<^item> An exception is a value of \<open>exn\<close>; a call that may raise returns
    \<open>exn + 'a\<close> with \<open>Inl\<close> the exception.
  \<^item> The libraries the program calls (\<open>requests\<close>, \<open>bs4\<close>) are not part of
    the repository. What they answer is a parameter, the record \<open>world\<close>; what the
    program does with the answer is translated from the source.
  \<^item> The order in which a Python \<open>set\<close> iterates and the order in which futures
    complete are not fixed by the program. Each is a parameter of the model (a rank
    function); every theorem holds for all of them.
  \<^item> The \<open>results\<close> table is the list of its rows in rowid order.
  \<^item> Log lines and console messages are not modelled.
\<close>

subsection \<open>Exceptions\<close>

datatype exn =
    HTTPError nat
  | ConnectionError
  | Timeout
  | TooManyRedirects
  | InvalidURL
  | ParserRejectedMarkup
  | ValueError
  | FileNotFoundError
  | OtherException string

text \<open>
  \<open>isinstance(e, RequestException)\<close>: the classes of \<open>requests.exceptions\<close>
  derive from \<open>RequestException\<close>; the others do not.
\<close>

fun isinstance_RequestException :: "exn \<Rightarrow> bool" where
  "isinstance_RequestException (HTTPError _) = True"
| "isinstance_RequestException ConnectionError = True"
| "isinstance_RequestException Timeout = True"
| "isinstance_RequestException TooManyRedirects = True"
| "isinstance_RequestException InvalidURL = True"
| "isinstance_RequestException ParserRejectedMarkup = False"
| "isinstance_RequestException ValueError = False"
| "isinstance_RequestException FileNotFoundError = False"
| "isinstance_RequestException (OtherException _) = False"

subsection \<open>The HTTP client and the HTML parser\<close>

record response =
  status_code :: nat
  resp_text :: string

text \<open>A parsed document: tags with their children, and text nodes.\<close>

datatype node = Tag string "node list" | NavigableString string

text \<open>
  \<open>requests_get url user_agent timeout\<close> is what
  \<open>requests.get(url, headers={'User-Agent': user_agent}, timeout=timeout)\<close> does:
  it returns a response or raises. \<open>BeautifulSoup markup\<close> is what
  \<open>BeautifulSoup(markup, 'html.parser')\<close> does: it returns the top-level nodes of
  the document or raises.
\<close>

record world =
  requests_get :: "string \<Rightarrow> string \<Rightarrow> int \<Rightarrow> exn + response"
  BeautifulSoup :: "string \<Rightarrow> exn + node list"

text \<open>
  \<open>Response.raise_for_status()\<close> of \<open>requests\<close>: an \<open>HTTPError\<close> for a
  status code from 400 to 599, nothing otherwise.
\<close>

definition raise_for_status :: "response \<Rightarrow> exn + unit" where
  "raise_for_status r =
     (if 400 \<le> status_code r \<and> status_code r < 600
      then Inl (HTTPError (status_code r)) else Inr ())"

text \<open>\<open>soup.find_all(name)\<close>: the tags called \<open>name\<close> at any depth, in document order.\<close>

fun find_all :: "string \<Rightarrow> node list \<Rightarrow> node list"
  and find_all_node :: "string \<Rightarrow> node \<Rightarrow> node list" where
  "find_all name [] = []"
| "find_all name (n # ns) = find_all_node name n @ find_all name ns"
| "find_all_node name (NavigableString s) = []"
| "find_all_node name (Tag t children) =
     (if t = name then [Tag t children] else []) @ find_all name children"

subsection \<open>process\_url (url\_checker.py, lines 98 to 127)\<close>

type_synonym result = "string \<times> int option \<times> string"

definition user_agent :: string where
  "user_agent = ''Mozilla/5.0 (compatible; URLChecker/1.0)''"

text \<open>
  The body of the \<open>try\<close> block: each call that raises ends the block with its
  exception.
\<close>

definition process_url_try :: "world \<Rightarrow> string \<Rightarrow> int \<Rightarrow> exn + result" where
  "process_url_try w url timeout =
     (case requests_get w url user_agent timeout of
        Inl e \<Rightarrow> Inl e
      | Inr response \<Rightarrow>
          (case raise_for_status response of
             Inl e \<Rightarrow> Inl e
           | Inr _ \<Rightarrow>
               (case BeautifulSoup w (resp_text response) of
                  Inl e \<Rightarrow> Inl e
                | Inr soup \<Rightarrow>
                    (let script_tags = find_all ''script'' soup;
                         script_count = int (length script_tags);
                         status = ''Success''
                     in Inr (url, Some script_count, status)))))"

text \<open>
  \<open>except RequestException\<close>: only a \<open>RequestException\<close> is turned into a
  \<open>Failed\<close> result; any other exception leaves the function.
\<close>

definition process_url :: "world \<Rightarrow> string \<Rightarrow> int \<Rightarrow> exn + result" where
  "process_url w url timeout =
     (case process_url_try w url timeout of
        Inr r \<Rightarrow> Inr r
      | Inl e \<Rightarrow>
          (if isinstance_RequestException e
           then (let script_count = None; status = ''Failed''
                 in Inr (url, script_count, status))
           else Inl e))"

subsection \<open>Strings: \<open>str.isspace\<close>, \<open>str.strip\<close>, \<open>str.split\<close>\<close>

text \<open>
  \<open>str.isspace\<close> on the code points below 256: tab, line feed, vertical tab, form
  feed, carriage return, the four separators 28 to 31, space, NEL (133) and the
  no-break space (160).
\<close>

definition isspace :: "char \<Rightarrow> bool" where
  "isspace c = (of_char c \<in> {9, 10, 11, 12, 13, 28, 29, 30, 31, 32, 133, 160 :: nat})"

text \<open>\<open>s.strip()\<close>: leading and trailing whitespace removed.\<close>

definition py_strip :: "string \<Rightarrow> string" where
  "py_strip s = rev (dropWhile isspace (rev (dropWhile isspace s)))"

text \<open>
  \<open>s.split()\<close> with no separator: the maximal runs of characters that are not
  whitespace, in order. \<open>split_from cur s\<close> scans \<open>s\<close> with \<open>cur\<close> the token read
  so far.
\<close>

fun split_from :: "string \<Rightarrow> string \<Rightarrow> string list" where
  "split_from cur [] = (if cur = [] then [] else [cur])"
| "split_from cur (c # cs) =
     (if isspace c
      then (if cur = [] then split_from [] cs else cur # split_from [] cs)
      else split_from (cur @ [c]) cs)"

definition py_split :: "string \<Rightarrow> string list" where
  "py_split s = split_from [] s"

subsection \<open>Paths and files\<close>

text \<open>\<open>os.path.join(a, b)\<close> (posixpath): an absolute \<open>b\<close> replaces \<open>a\<close>.\<close>

definition os_path_join :: "string \<Rightarrow> string \<Rightarrow> string" where
  "os_path_join a b =
     (if b \<noteq> [] \<and> hd b = CHR ''/'' then b
      else if a = [] \<or> last a = CHR ''/'' then a @ b
      else a @ ''/'' @ b)"

text \<open>The files of the machine: the content of each path that exists.\<close>

type_synonym filesystem = "string \<rightharpoonup> string"

text \<open>\<open>open(path, 'r')\<close> and \<open>file.read()\<close>: a missing file raises.\<close>

definition open_read :: "filesystem \<Rightarrow> string \<Rightarrow> exn + string" where
  "open_read fs path = (case fs path of None \<Rightarrow> Inl FileNotFoundError | Some content \<Rightarrow> Inr content)"

text \<open>\<open>open(path, 'w')\<close> and the writes: the file is created or replaced.\<close>

definition open_write :: "filesystem \<Rightarrow> string \<Rightarrow> string \<Rightarrow> filesystem" where
  "open_write fs path content = fs(path \<mapsto> content)"

subsection \<open>Orders the program does not fix\<close>

text \<open>
  \<open>set_rank\<close> ranks the strings in the order a Python \<open>set\<close> iterates over them;
  \<open>finish_time\<close> is the time at which the future of a URL completes. Every
  order of a duplicate-free list is the order of some rank function.
\<close>

record schedule =
  set_rank :: "string \<Rightarrow> nat"
  finish_time :: "string \<Rightarrow> nat"

text \<open>\<open>list(set(xs))\<close>: each element once, in the set's iteration order.\<close>

definition list_set :: "schedule \<Rightarrow> string list \<Rightarrow> string list" where
  "list_set sch xs = sort_key (set_rank sch) (remdups xs)"

text \<open>\<open>as_completed(futures)\<close>: the submitted URLs in the order their futures complete.\<close>

definition as_completed :: "schedule \<Rightarrow> string list \<Rightarrow> string list" where
  "as_completed sch urls = sort_key (finish_time sch) urls"

text \<open>
  The place of a string in a list; as a rank it gives the order of that list (see
  the last section).
\<close>

definition position :: "string list \<Rightarrow> string \<Rightarrow> nat" where
  "position ys x = length (takeWhile (\<lambda>y. y \<noteq> x) ys)"

subsection \<open>load\_urls (url\_checker.py, lines 69 to 84)\<close>

definition load_urls :: "filesystem \<Rightarrow> schedule \<Rightarrow> string \<Rightarrow> string \<Rightarrow> exn + string list" where
  "load_urls fs sch data_dir url_file =
     (let url_file_path = os_path_join data_dir url_file
      in case open_read fs url_file_path of
           Inl e \<Rightarrow> Inl e
         | Inr content \<Rightarrow>
             (let urls = py_split (py_strip content)
              in Inr (list_set sch urls)))"

subsection \<open>The results table\<close>

text \<open>
  \<open>CREATE TABLE IF NOT EXISTS results (url TEXT PRIMARY KEY, script_count INTEGER,
  status TEXT)\<close>. The persistent database is \<open>None\<close> before the table exists.
\<close>

type_synonym table = "result list"

definition setup_database :: "table option \<Rightarrow> table" where
  "setup_database db = (case db of None \<Rightarrow> [] | Some rows \<Rightarrow> rows)"

text \<open>\<open>SELECT url FROM results\<close>, as a set.\<close>

definition get_processed_urls :: "table \<Rightarrow> string set" where
  "get_processed_urls db = set (map fst db)"

text \<open>
  \<open>REPLACE INTO results (url, script_count, status) VALUES (?, ?, ?)\<close>: the row
  that holds the primary key \<open>url\<close> is deleted, then the new row is inserted (with
  a fresh, largest rowid).
\<close>

definition save_result :: "table \<Rightarrow> string \<Rightarrow> int option \<Rightarrow> string \<Rightarrow> table" where
  "save_result db url script_count status =
     filter (\<lambda>r. fst r \<noteq> url) db @ [(url, script_count, status)]"

text \<open>\<open>SELECT url, script_count, status FROM results\<close> and \<open>fetchall()\<close>.\<close>

definition select_all :: "table \<Rightarrow> result list" where
  "select_all db = db"

subsection \<open>Decimal numerals: \<open>str(n)\<close>\<close>

definition digit_char :: "nat \<Rightarrow> char" where
  "digit_char d = char_of (48 + d)"

function str_nat :: "nat \<Rightarrow> string" where
  "str_nat n = (if n < 10 then [digit_char n] else str_nat (n div 10) @ [digit_char (n mod 10)])"
  by pat_completeness auto
termination
  by (relation "measure id") auto

definition str_int :: "int \<Rightarrow> string" where
  "str_int i = (if i < 0 then CHR ''-'' # str_nat (nat (- i)) else str_nat (nat i))"

subsection \<open>The CSV writer (\<open>csv.writer\<close>, dialect excel)\<close>

text \<open>
  Delimiter comma, quote character \<open>"\<close> doubled inside a quoted field, minimal
  quoting, line terminator CR LF.
\<close>

definition DQUOTE :: char where "DQUOTE = CHR 0x22"
definition COMMA :: char where "COMMA = CHR 0x2C"
definition CR :: char where "CR = CHR 0x0D"
definition LF :: char where "LF = CHR 0x0A"

definition special :: "char \<Rightarrow> bool" where
  "special c = (c = COMMA \<or> c = DQUOTE \<or> c = CR \<or> c = LF)"

fun double_quotes :: "string \<Rightarrow> string" where
  "double_quotes [] = []"
| "double_quotes (c # cs) = (if c = DQUOTE then [DQUOTE, DQUOTE] else [c]) @ double_quotes cs"

definition csv_field :: "string \<Rightarrow> string" where
  "csv_field f =
     (if list_ex special f then [DQUOTE] @ double_quotes f @ [DQUOTE] else double_quotes f)"

fun join_fields :: "string list \<Rightarrow> string" where
  "join_fields [] = []"
| "join_fields [f] = csv_field f"
| "join_fields (f # fs) = csv_field f @ [COMMA] @ join_fields fs"

text \<open>\<open>writerow\<close>: a record of one empty field is written as \<open>""\<close>.\<close>

definition writerow :: "string list \<Rightarrow> string" where
  "writerow cells =
     (if cells = [[]] then [DQUOTE, DQUOTE] else join_fields cells) @ [CR, LF]"

text \<open>The text of a cell: a \<open>str\<close> as it is, \<open>None\<close> as the empty text, an \<open>int\<close> by \<open>str\<close>.\<close>

definition cell_int :: "int option \<Rightarrow> string" where
  "cell_int c = (case c of None \<Rightarrow> [] | Some n \<Rightarrow> str_int n)"

definition row_cells :: "result \<Rightarrow> string list" where
  "row_cells r = (case r of (url, script_count, status) \<Rightarrow> [url, cell_int script_count, status])"

definition writerows :: "result list \<Rightarrow> string" where
  "writerows rows = concat (map (\<lambda>r. writerow (row_cells r)) rows)"

subsection \<open>export\_to\_csv (url\_checker.py, lines 143 to 164)\<close>

definition csv_text :: "table \<Rightarrow> string" where
  "csv_text db =
     (let rows = select_all db
      in writerow [''URL'', ''Script Count'', ''Status''] @ writerows rows)"

definition export_to_csv :: "string \<Rightarrow> table \<Rightarrow> string \<Rightarrow> filesystem \<Rightarrow> filesystem" where
  "export_to_csv data_dir db csv_file fs =
     (let csv_file_path = os_path_join data_dir csv_file
      in open_write fs csv_file_path (csv_text db))"

section \<open>web\_scraper\_latest.py\<close>

text \<open>
  The second script, translated on its own: \<open>setup_database\<close> (lines 28 to 39),
  \<open>load_urls\<close> (41 to 47), \<open>get_processed_urls\<close> (49 to 51), \<open>process_url\<close>
  (53 to 70), \<open>save_result\<close> (72 to 74) and \<open>export_to_csv\<close> (76 to 87). It takes
  the paths as they are given (relative to the working directory) and sends another
  user agent.
\<close>

definition ws_user_agent :: string where
  "ws_user_agent = ''Mozilla/5.0 (compatible; WebScraper/1.0)''"

definition ws_setup_database :: "table option \<Rightarrow> table" where
  "ws_setup_database db = (case db of None \<Rightarrow> [] | Some rows \<Rightarrow> rows)"

definition ws_load_urls :: "filesystem \<Rightarrow> schedule \<Rightarrow> string \<Rightarrow> exn + string list" where
  "ws_load_urls fs sch url_file =
     (case open_read fs url_file of
        Inl e \<Rightarrow> Inl e
      | Inr content \<Rightarrow>
          (let urls = py_split (py_strip content)
           in Inr (list_set sch urls)))"

definition ws_get_processed_urls :: "table \<Rightarrow> string set" where
  "ws_get_processed_urls db = set (map fst db)"

definition ws_process_url_try :: "world \<Rightarrow> string \<Rightarrow> int \<Rightarrow> exn + result" where
  "ws_process_url_try w url timeout =
     (case requests_get w url ws_user_agent timeout of
        Inl e \<Rightarrow> Inl e
      | Inr response \<Rightarrow>
          (case raise_for_status response of
             Inl e \<Rightarrow> Inl e
           | Inr _ \<Rightarrow>
               (case BeautifulSoup w (resp_text response) of
                  Inl e \<Rightarrow> Inl e
                | Inr soup \<Rightarrow>
                    (let script_tags = find_all ''script'' soup;
                         script_count = int (length script_tags);
                         status = ''Success''
                     in Inr (url, Some script_count, status)))))"

definition ws_process_url :: "world \<Rightarrow> string \<Rightarrow> int \<Rightarrow> exn + result" where
  "ws_process_url w url timeout =
     (case ws_process_url_try w url timeout of
        Inr r \<Rightarrow> Inr r
      | Inl e \<Rightarrow>
          (if isinstance_RequestException e
           then (let script_count = None; status = ''Failed''
                 in Inr (url, script_count, status))
           else Inl e))"

definition ws_save_result :: "table \<Rightarrow> string \<Rightarrow> int option \<Rightarrow> string \<Rightarrow> table" where
  "ws_save_result db url script_count status =
     filter (\<lambda>r. fst r \<noteq> url) db @ [(url, script_count, status)]"

definition ws_export_to_csv :: "table \<Rightarrow> string \<Rightarrow> filesystem \<Rightarrow> filesystem" where
  "ws_export_to_csv db csv_file fs =
     (let rows = select_all db
      in open_write fs csv_file
           (writerow [''URL'', ''Script Count'', ''Status''] @ writerows rows))"

section \<open>The command line and a run\<close>

record args =
  url_file :: string
  workers :: int
  timeout :: int
  csv_output :: string

text \<open>
  What a run leaves: the exception that ended it (if any), the table, the files, and
  the URLs handed to \<open>process_url\<close>.
\<close>

record run =
  raised :: "exn option"
  store :: table
  files :: filesystem
  fetched :: "string list"

subsection \<open>main (url\_checker.py, lines 166 to 201)\<close>

text \<open>
  The body of the loop over \<open>as_completed\<close>: the result of a future is saved and
  committed; an exception of the future is logged and the URL gets no row.
\<close>

definition commit_result :: "world \<Rightarrow> int \<Rightarrow> table \<Rightarrow> string \<Rightarrow> table" where
  "commit_result w tmo db url =
     (case process_url w url tmo of
        Inr (url', script_count, status) \<Rightarrow> save_result db url' script_count status
      | Inl e \<Rightarrow> db)"

text \<open>
  \<open>ThreadPoolExecutor(max_workers=n)\<close> raises \<open>ValueError\<close> for \<open>n \<le> 0\<close>; main does
  not catch it, and nothing after it runs.
\<close>

definition main :: "world \<Rightarrow> schedule \<Rightarrow> string \<Rightarrow> args \<Rightarrow> table option \<Rightarrow> filesystem \<Rightarrow> run" where
  "main w sch data_dir a dbfile fs =
     (let db = setup_database dbfile
      in case load_urls fs sch data_dir (url_file a) of
           Inl e \<Rightarrow> \<lparr>raised = Some e, store = db, files = fs, fetched = []\<rparr>
         | Inr urls \<Rightarrow>
             (let processed_urls = get_processed_urls db;
                  urls_to_process = filter (\<lambda>url. url \<notin> processed_urls) urls
              in if urls_to_process = []
                 then \<lparr>raised = None, store = db,
                       files = export_to_csv data_dir db (csv_output a) fs, fetched = []\<rparr>
                 else if workers a \<le> 0
                 then \<lparr>raised = Some ValueError, store = db, files = fs, fetched = []\<rparr>
                 else (let db' = foldl (commit_result w (timeout a)) db
                                   (as_completed sch urls_to_process)
                       in \<lparr>raised = None, store = db',
                             files = export_to_csv data_dir db' (csv_output a) fs,
                             fetched = urls_to_process\<rparr>)))"

subsection \<open>main (web\_scraper\_latest.py, lines 89 to 116)\<close>

definition ws_commit_result :: "world \<Rightarrow> int \<Rightarrow> table \<Rightarrow> string \<Rightarrow> table" where
  "ws_commit_result w tmo db url =
     (case ws_process_url w url tmo of
        Inr (url', script_count, status) \<Rightarrow> ws_save_result db url' script_count status
      | Inl e \<Rightarrow> db)"

definition ws_main :: "world \<Rightarrow> schedule \<Rightarrow> args \<Rightarrow> table option \<Rightarrow> filesystem \<Rightarrow> run" where
  "ws_main w sch a dbfile fs =
     (let db = ws_setup_database dbfile
      in case ws_load_urls fs sch (url_file a) of
           Inl e \<Rightarrow> \<lparr>raised = Some e, store = db, files = fs, fetched = []\<rparr>
         | Inr urls \<Rightarrow>
             (let processed_urls = ws_get_processed_urls db;
                  urls_to_process = filter (\<lambda>url. url \<notin> processed_urls) urls
              in if urls_to_process = []
                 then \<lparr>raised = None, store = db,
                       files = ws_export_to_csv db (csv_output a) fs, fetched = []\<rparr>
                 else if workers a \<le> 0
                 then \<lparr>raised = Some ValueError, store = db, files = fs, fetched = []\<rparr>
                 else (let db' = foldl (ws_commit_result w (timeout a)) db
                                   (as_completed sch urls_to_process)
                       in \<lparr>raised = None, store = db',
                             files = ws_export_to_csv db' (csv_output a) fs,
                             fetched = urls_to_process\<rparr>)))"

section \<open>Reading the exported file back\<close>

text \<open>
  The program never reads its CSV. Reading it back is \<open>csv.reader\<close> of Python
  (dialect excel, the file opened with \<open>newline=''\<close>) over the text of the file,
  then the three cells of each record turned into a row again: the empty cell is
  \<open>None\<close>, a numeral is the integer \<open>int\<close> gives.

  \<open>csv.reader\<close> is a machine with a state, the field being read and the fields of
  the record being read. A line ends at LF, at CR LF, or at a CR that no LF follows.
\<close>

datatype rstate =
  START_RECORD | START_FIELD | IN_FIELD | IN_QUOTED_FIELD | QUOTE_IN_QUOTED_FIELD | EAT_CRNL

type_synonym reader = "rstate \<times> string \<times> string list"

text \<open>A character where a field starts.\<close>

definition start_field :: "string list \<Rightarrow> char \<Rightarrow> reader \<times> string list list" where
  "start_field flds c =
     (if c = LF then ((START_RECORD, [], []), [flds @ [[]]])
      else if c = CR then ((EAT_CRNL, [], flds @ [[]]), [])
      else if c = DQUOTE then ((IN_QUOTED_FIELD, [], flds), [])
      else if c = COMMA then ((START_FIELD, [], flds @ [[]]), [])
      else ((IN_FIELD, [c], flds), []))"

text \<open>A character where a record starts: an empty line is an empty record.\<close>

definition start_record :: "char \<Rightarrow> reader \<times> string list list" where
  "start_record c =
     (if c = LF then ((START_RECORD, [], []), [[]])
      else if c = CR then ((EAT_CRNL, [], []), [])
      else start_field [] c)"

text \<open>One character: the next reader and the records that are complete.\<close>

fun process_char :: "reader \<Rightarrow> char \<Rightarrow> reader \<times> string list list" where
  "process_char (START_RECORD, fld, flds) c = start_record c"
| "process_char (START_FIELD, fld, flds) c = start_field flds c"
| "process_char (IN_FIELD, fld, flds) c =
     (if c = LF then ((START_RECORD, [], []), [flds @ [fld]])
      else if c = CR then ((EAT_CRNL, [], flds @ [fld]), [])
      else if c = COMMA then ((START_FIELD, [], flds @ [fld]), [])
      else ((IN_FIELD, fld @ [c], flds), []))"
| "process_char (IN_QUOTED_FIELD, fld, flds) c =
     (if c = DQUOTE then ((QUOTE_IN_QUOTED_FIELD, fld, flds), [])
      else ((IN_QUOTED_FIELD, fld @ [c], flds), []))"
| "process_char (QUOTE_IN_QUOTED_FIELD, fld, flds) c =
     (if c = DQUOTE then ((IN_QUOTED_FIELD, fld @ [c], flds), [])
      else if c = COMMA then ((START_FIELD, [], flds @ [fld]), [])
      else if c = LF then ((START_RECORD, [], []), [flds @ [fld]])
      else if c = CR then ((EAT_CRNL, [], flds @ [fld]), [])
      else ((IN_FIELD, fld @ [c], flds), []))"
| "process_char (EAT_CRNL, fld, flds) c =
     (if c = LF then ((START_RECORD, [], []), [flds])
      else (case start_record c of (r, out) \<Rightarrow> (r, flds # out)))"

text \<open>The end of the text: the record being read, if any, is complete.\<close>

fun at_eof :: "reader \<Rightarrow> string list list" where
  "at_eof (START_RECORD, fld, flds) = []"
| "at_eof (EAT_CRNL, fld, flds) = [flds]"
| "at_eof (START_FIELD, fld, flds) = [flds @ [[]]]"
| "at_eof (IN_FIELD, fld, flds) = [flds @ [fld]]"
| "at_eof (IN_QUOTED_FIELD, fld, flds) = [flds @ [fld]]"
| "at_eof (QUOTE_IN_QUOTED_FIELD, fld, flds) = [flds @ [fld]]"

fun reader_run :: "reader \<Rightarrow> string \<Rightarrow> string list list" where
  "reader_run r [] = at_eof r"
| "reader_run r (c # cs) = (case process_char r c of (r', out) \<Rightarrow> out @ reader_run r' cs)"

definition csv_reader :: "string \<Rightarrow> string list list" where
  "csv_reader s = reader_run (START_RECORD, [], []) s"

text \<open>\<open>int(s)\<close> for an optional minus sign and decimal digits; \<open>None\<close> otherwise.\<close>

definition digit_value :: "char \<Rightarrow> nat option" where
  "digit_value c =
     (if 48 \<le> (of_char c :: nat) \<and> (of_char c :: nat) \<le> 57 then Some (of_char c - 48) else None)"

fun digits_value :: "nat \<Rightarrow> string \<Rightarrow> nat option" where
  "digits_value acc [] = Some acc"
| "digits_value acc (c # cs) =
     (case digit_value c of None \<Rightarrow> None | Some d \<Rightarrow> digits_value (10 * acc + d) cs)"

definition py_int :: "string \<Rightarrow> int option" where
  "py_int s =
     (case s of
        [] \<Rightarrow> None
      | c # cs \<Rightarrow>
          (if c = CHR ''-''
           then (if cs = [] then None else map_option (\<lambda>n. - int n) (digits_value 0 cs))
           else map_option int (digits_value 0 s)))"

definition result_of_cells :: "string list \<Rightarrow> result option" where
  "result_of_cells cells =
     (case cells of
        [url, c, status] \<Rightarrow>
          (if c = [] then Some (url, None, status)
           else map_option (\<lambda>n. (url, Some n, status)) (py_int c))
      | _ \<Rightarrow> None)"

text \<open>The rows of a CSV text: the records after the header, each turned into a row.\<close>

definition read_results :: "string \<Rightarrow> result list option" where
  "read_results s =
     (case csv_reader s of
        [] \<Rightarrow> None
      | header # records \<Rightarrow> those (map result_of_cells records))"

text \<open>
  Where the reader stands when it has read a field \<open>f\<close> of a record that holds
  \<open>flds\<close> so far: in the field (not quoted, not empty), after the closing quote,
  or still at the start of the field (not quoted, empty).
\<close>

definition after_field :: "reader \<Rightarrow> string \<Rightarrow> string list \<Rightarrow> bool" where
  "after_field r f flds =
     (r = (IN_FIELD, f, flds) \<and> f \<noteq> [] \<or> r = (QUOTE_IN_QUOTED_FIELD, f, flds)
      \<or> (\<exists>x. r = (START_FIELD, x, flds)) \<and> f = [])"

section \<open>The invariant of the results table\<close>



section \<open>An example world\<close>

text \<open>
  A network of five pages, used to run the definitions: \<open>a.test\<close> serves a page
  with two script tags, \<open>b.test\<close> times out, \<open>c.test\<close> answers 404,
  \<open>d.test\<close> serves markup that \<open>html.parser\<close> rejects, and \<open>e.test\<close>
  answers 300 (Multiple Choices) with a page of one link and no \<open>Location\<close>
  header, a response that \<open>requests\<close> hands back as it is; every other host
  refuses the connection. As in \<open>requests\<close>, a timeout that is not positive is a
  \<open>ValueError\<close>. The answers do not depend on the user agent.
\<close>

definition example_world :: world where
  "example_world =
     \<lparr>requests_get = (\<lambda>url agent tmo.
        if tmo \<le> 0 then Inl ValueError
        else if url = ''http://a.test''
          then Inr \<lparr>status_code = 200, resp_text = ''<script></script><p><script></script></p>''\<rparr>
        else if url = ''http://b.test'' then Inl Timeout
        else if url = ''http://c.test'' then Inr \<lparr>status_code = 404, resp_text = []\<rparr>
        else if url = ''http://d.test''
          then Inr \<lparr>status_code = 200, resp_text = ''<![UNKNOWN[]]>''\<rparr>
        else if url = ''http://e.test''
          then Inr \<lparr>status_code = 300, resp_text = ''<a href=x>x</a>''\<rparr>
        else Inl ConnectionError),
      BeautifulSoup = (\<lambda>markup.
        if markup = ''<script></script><p><script></script></p>''
          then Inr [Tag ''script'' [], Tag ''p'' [Tag ''script'' []]]
        else if markup = ''<![UNKNOWN[]]>'' then Inl ParserRejectedMarkup
        else if markup = ''<a href=x>x</a>'' then Inr [Tag ''a'' [NavigableString ''x'']]
        else Inr [])\<rparr>"

text \<open>
  A schedule (the set iterates by length of the string, all futures complete at
  once), a data directory with a URL file, and the command line
  \<open>urls.txt\<close> with the defaults of the options.
\<close>

definition example_schedule :: schedule where
  "example_schedule = \<lparr>set_rank = length, finish_time = (\<lambda>url. 0)\<rparr>"

definition example_files :: filesystem where
  "example_files = [''data/urls.txt'' \<mapsto> ''http://a.test http://a.test http://b.test'']"

definition example_args :: args where
  "example_args = \<lparr>url_file = ''urls.txt'', workers = 10, timeout = 10, csv_output = ''results.csv''\<rparr>"



text \<open>
  Rows that need quoting: a URL with a comma and a quote in it, a status with a
  line break in it, a negative count, empty texts.
\<close>

definition example_rows :: table where
  "example_rows =
     [(''http://a.test/?q=1,2'', Some 2, ''Success''),
      ([CHR ''a'', DQUOTE, CHR ''b''], None, [CHR ''F'', CR, LF, CHR ''x'']),
      ([], Some (- 45), [])]"

section \<open>The fetcher\<close>

text \<open>What \<open>process_url\<close> does, by the answer of the network and of the parser.\<close>

lemma process_url_cases:
  "process_url w url tmo =
     (case requests_get w url user_agent tmo of
        Inl e \<Rightarrow> if isinstance_RequestException e then Inr (url, None, ''Failed'') else Inl e
      | Inr r \<Rightarrow>
          if 400 \<le> status_code r \<and> status_code r < 600 then Inr (url, None, ''Failed'')
          else (case BeautifulSoup w (resp_text r) of
                  Inl e \<Rightarrow> if isinstance_RequestException e then Inr (url, None, ''Failed'') else Inl e
                | Inr soup \<Rightarrow> Inr (url, Some (int (length (find_all ''script'' soup))), ''Success'')))"
  by (simp add: process_url_def process_url_try_def raise_for_status_def Let_def split: sum.splits)

lemma ws_process_url_cases:
  "ws_process_url w url tmo =
     (case requests_get w url ws_user_agent tmo of
        Inl e \<Rightarrow> if isinstance_RequestException e then Inr (url, None, ''Failed'') else Inl e
      | Inr r \<Rightarrow>
          if 400 \<le> status_code r \<and> status_code r < 600 then Inr (url, None, ''Failed'')
          else (case BeautifulSoup w (resp_text r) of
                  Inl e \<Rightarrow> if isinstance_RequestException e then Inr (url, None, ''Failed'') else Inl e
                | Inr soup \<Rightarrow> Inr (url, Some (int (length (find_all ''script'' soup))), ''Success'')))"
  by (simp add: ws_process_url_def ws_process_url_try_def raise_for_status_def Let_def
      split: sum.splits)

lemma example_a:
  "process_url example_world ''http://a.test'' 10 = Inr (''http://a.test'', Some 2, ''Success'')"
  by (simp add: process_url_cases example_world_def user_agent_def)

lemma example_b:
  "process_url example_world ''http://b.test'' 10 = Inr (''http://b.test'', None, ''Failed'')"
  by (simp add: process_url_cases example_world_def user_agent_def)

lemma example_c:
  "process_url example_world ''http://c.test'' 10 = Inr (''http://c.test'', None, ''Failed'')"
  by (simp add: process_url_cases example_world_def user_agent_def)

lemma example_d:
  "process_url example_world ''http://d.test'' 10 = Inl ParserRejectedMarkup"
  by (simp add: process_url_cases example_world_def user_agent_def)

lemma example_e:
  "process_url example_world ''http://e.test'' 10 = Inr (''http://e.test'', Some 0, ''Success'')"
  by (simp add: process_url_cases example_world_def user_agent_def)

text \<open>
  C1 (as the code has it). \<open>process_url\<close> catches \<open>RequestException\<close> and nothing
  else. So an exception that leaves it is never a \<open>RequestException\<close>; a
  \<open>RequestException\<close> raised by the GET (a transport error, a timeout) and a status
  from 400 to 599 (the \<open>HTTPError\<close> of \<open>raise_for_status\<close>) give the result
  \<open>(url, None, 'Failed')\<close>; every \<open>Failed\<close> result has no script count; an
  exception of the GET or of the parser that is not a \<open>RequestException\<close> leaves
  \<open>process_url\<close>; and a response of any other status that the parser accepts gives
  \<open>'Success'\<close> with the number of its script tags. The same holds for the second
  script.
\<close>

theorem process_url_failures:
  "(process_url w url tmo = Inl e \<longrightarrow> \<not> isinstance_RequestException e)
   \<and> (process_url w url tmo = Inr (u, c, ''Failed'') \<longrightarrow> c = None)
   \<and> (requests_get w url user_agent tmo = Inl e' \<and> isinstance_RequestException e' \<longrightarrow>
        process_url w url tmo = Inr (url, None, ''Failed''))
   \<and> (requests_get w url user_agent tmo = Inl e' \<and> \<not> isinstance_RequestException e' \<longrightarrow>
        process_url w url tmo = Inl e')
   \<and> (requests_get w url user_agent tmo = Inr r \<and> 400 \<le> status_code r \<and> status_code r < 600 \<longrightarrow>
        process_url w url tmo = Inr (url, None, ''Failed''))
   \<and> (requests_get w url user_agent tmo = Inr r \<and> \<not> (400 \<le> status_code r \<and> status_code r < 600)
        \<and> BeautifulSoup w (resp_text r) = Inl e' \<and> \<not> isinstance_RequestException e' \<longrightarrow>
        process_url w url tmo = Inl e')
   \<and> (requests_get w url user_agent tmo = Inr r \<and> \<not> (400 \<le> status_code r \<and> status_code r < 600)
        \<and> BeautifulSoup w (resp_text r) = Inr soup \<longrightarrow>
        process_url w url tmo
          = Inr (url, Some (int (length (find_all ''script'' soup))), ''Success''))
   \<and> (ws_process_url w url tmo = Inl e \<longrightarrow> \<not> isinstance_RequestException e)
   \<and> (ws_process_url w url tmo = Inr (u, c, ''Failed'') \<longrightarrow> c = None)
   \<and> (requests_get w url ws_user_agent tmo = Inl e' \<and> isinstance_RequestException e' \<longrightarrow>
        ws_process_url w url tmo = Inr (url, None, ''Failed''))
   \<and> (requests_get w url ws_user_agent tmo = Inl e' \<and> \<not> isinstance_RequestException e' \<longrightarrow>
        ws_process_url w url tmo = Inl e')
   \<and> (requests_get w url ws_user_agent tmo = Inr r \<and> 400 \<le> status_code r \<and> status_code r < 600 \<longrightarrow>
        ws_process_url w url tmo = Inr (url, None, ''Failed''))
   \<and> (requests_get w url ws_user_agent tmo = Inr r \<and> \<not> (400 \<le> status_code r \<and> status_code r < 600)
        \<and> BeautifulSoup w (resp_text r) = Inl e' \<and> \<not> isinstance_RequestException e' \<longrightarrow>
        ws_process_url w url tmo = Inl e')
   \<and> (requests_get w url ws_user_agent tmo = Inr r \<and> \<not> (400 \<le> status_code r \<and> status_code r < 600)
        \<and> BeautifulSoup w (resp_text r) = Inr soup \<longrightarrow>
        ws_process_url w url tmo
          = Inr (url, Some (int (length (find_all ''script'' soup))), ''Success''))"
proof -
  have uc: "process_url w url tmo = Inl e \<longrightarrow> \<not> isinstance_RequestException e"
    "process_url w url tmo = Inr (u, c, ''Failed'') \<longrightarrow> c = None"
    by (auto simp: process_url_cases split: sum.splits if_splits)
  have ws: "ws_process_url w url tmo = Inl e \<longrightarrow> \<not> isinstance_RequestException e"
    "ws_process_url w url tmo = Inr (u, c, ''Failed'') \<longrightarrow> c = None"
    by (auto simp: ws_process_url_cases split: sum.splits if_splits)
  show ?thesis
    using uc ws by (simp add: process_url_cases ws_process_url_cases)
qed

text \<open>
  The theorem at \<open>b.test\<close> of the example world: the GET raises \<open>Timeout\<close>, a
  \<open>RequestException\<close>, and the result is \<open>Failed\<close> with no count.
\<close>

theorem process_url_failures_witness:
  "requests_get example_world ''http://b.test'' user_agent 10 = Inl Timeout
   \<and> isinstance_RequestException Timeout
   \<and> process_url example_world ''http://b.test'' 10 = Inr (''http://b.test'', None, ''Failed'')"
  using process_url_failures [where w = example_world and url = "''http://b.test''"
      and tmo = 10 and e' = Timeout]
  by (simp add: example_world_def)

text \<open>
  C1 as the specification states it fails. The page of \<open>d.test\<close> is served with
  status 200 and the parser rejects it; \<open>ParserRejectedMarkup\<close> is not a
  \<open>RequestException\<close>, so \<open>process_url\<close> raises it and returns no result. And
  the answer of \<open>e.test\<close> has the status 300, which is not a 2xx status and for
  which \<open>raise_for_status\<close> raises nothing: the result is \<open>'Success'\<close>.
\<close>

theorem process_url_raises_counterexample:
  "process_url example_world ''http://d.test'' 10 = Inl ParserRejectedMarkup
   \<and> process_url example_world ''http://e.test'' 10 = Inr (''http://e.test'', Some 0, ''Success'')"
  by (simp add: process_url_cases example_world_def user_agent_def)

text \<open>
  C10. A triple that \<open>process_url\<close> returns has the requested URL as its first
  component, and its status is exactly one of \<open>'Success'\<close> and \<open>'Failed'\<close>; in
  both scripts.
\<close>

theorem process_url_returned_triple:
  "(process_url w url tmo = Inr (u, c, s) \<longrightarrow>
      u = url \<and> (s = ''Success'') \<noteq> (s = ''Failed''))
   \<and> (ws_process_url w url tmo = Inr (u, c, s) \<longrightarrow>
      u = url \<and> (s = ''Success'') \<noteq> (s = ''Failed''))"
  by (auto simp: process_url_cases ws_process_url_cases split: sum.splits if_splits)

theorem process_url_returned_triple_witness:
  "process_url example_world ''http://a.test'' 10 = Inr (''http://a.test'', Some 2, ''Success'')
   \<and> ''http://a.test'' = ''http://a.test''
   \<and> ((''Success'' = ''Success'') \<noteq> (''Success'' = ''Failed''))"
  using process_url_returned_triple
    [of example_world "''http://a.test''" 10 "''http://a.test''" "Some 2" "''Success''"]
  by (simp add: process_url_cases example_world_def user_agent_def)

section \<open>The URL source\<close>

lemma split_from_spaces:
  "list_all isspace ws \<Longrightarrow> split_from cur ws = (if cur = [] then [] else [cur])"
  by (induction ws arbitrary: cur) auto

lemma split_from_append_spaces:
  "list_all isspace ws \<Longrightarrow> split_from cur (s @ ws) = split_from cur s"
  by (induction s arbitrary: cur) (auto simp: split_from_spaces)

lemma split_from_dropWhile: "split_from [] (dropWhile isspace s) = split_from [] s"
  by (induction s) auto

text \<open>What \<open>strip\<close> removes at the end is whitespace.\<close>

lemma strip_decompose:
  "\<exists>ws. list_all isspace ws \<and> dropWhile isspace s = py_strip s @ ws"
proof -
  let ?t = "dropWhile isspace s"
  have "rev ?t = takeWhile isspace (rev ?t) @ dropWhile isspace (rev ?t)" by simp
  then have "?t = rev (dropWhile isspace (rev ?t)) @ rev (takeWhile isspace (rev ?t))"
    by (metis rev_append rev_rev_ident)
  moreover have "list_all isspace (rev (takeWhile isspace (rev ?t)))"
    by (simp add: list_all_iff) (meson set_takeWhileD)
  ultimately show ?thesis unfolding py_strip_def by blast
qed

text \<open>\<open>content.strip().split()\<close> has the tokens of \<open>content.split()\<close>.\<close>

lemma py_split_strip: "py_split (py_strip s) = py_split s"
proof -
  obtain ws where ws: "list_all isspace ws" "dropWhile isspace s = py_strip s @ ws"
    using strip_decompose by blast
  have "py_split s = split_from [] (dropWhile isspace s)"
    by (simp add: py_split_def split_from_dropWhile)
  also have "\<dots> = split_from [] (py_strip s)"
    using ws by (simp add: split_from_append_spaces)
  finally show ?thesis by (simp add: py_split_def)
qed

text \<open>
  The tokens of \<open>split\<close> are not empty and hold no whitespace, and together they
  are the characters of the text that are not whitespace.
\<close>

lemma split_from_tokens:
  "list_all (\<lambda>c. \<not> isspace c) cur \<Longrightarrow>
   list_all (\<lambda>t. t \<noteq> [] \<and> list_all (\<lambda>c. \<not> isspace c) t) (split_from cur s)"
  by (induction s arbitrary: cur) auto

lemma py_split_tokens:
  "list_all (\<lambda>t. t \<noteq> [] \<and> list_all (\<lambda>c. \<not> isspace c) t) (py_split s)"
  by (simp add: py_split_def split_from_tokens)

lemma split_from_concat:
  "concat (split_from cur s) = cur @ filter (\<lambda>c. \<not> isspace c) s"
  by (induction s arbitrary: cur) auto

lemma py_split_concat: "concat (py_split s) = filter (\<lambda>c. \<not> isspace c) s"
  by (simp add: py_split_def split_from_concat)

lemma list_set_distinct: "distinct (list_set sch xs)"
  by (simp add: list_set_def)

lemma list_set_set: "set (list_set sch xs) = set xs"
  by (simp add: list_set_def)

text \<open>
  C4. When the URL file exists, \<open>load_urls\<close> returns a list without duplicates
  whose elements are the whitespace-delimited tokens of the file; in both scripts
  (the first resolves the file name in the data directory, the second takes the
  path as it is).
\<close>

theorem load_urls_unique:
  "(fs (os_path_join data_dir f) = Some content \<longrightarrow>
      (\<exists>urls. load_urls fs sch data_dir f = Inr urls \<and> distinct urls
         \<and> set urls = set (py_split content)))
   \<and> (fs f = Some content \<longrightarrow>
      (\<exists>urls. ws_load_urls fs sch f = Inr urls \<and> distinct urls
         \<and> set urls = set (py_split content)))"
  by (simp add: load_urls_def ws_load_urls_def open_read_def Let_def list_set_distinct list_set_set
      py_split_strip)

text \<open>
  The theorem at the example file, which names \<open>a.test\<close> twice: the list
  returned has it once.
\<close>

theorem load_urls_unique_witness:
  "example_files (os_path_join ''data'' ''urls.txt'')
     = Some ''http://a.test http://a.test http://b.test''
   \<and> load_urls example_files example_schedule ''data'' ''urls.txt''
     = Inr [''http://a.test'', ''http://b.test'']
   \<and> py_split ''http://a.test http://a.test http://b.test''
     = [''http://a.test'', ''http://a.test'', ''http://b.test'']"
  using load_urls_unique [of example_files "''data''" "''urls.txt''"
      "''http://a.test http://a.test http://b.test''" example_schedule]
  by (simp add: load_urls_def example_files_def example_schedule_def os_path_join_def
      open_read_def py_strip_def py_split_def isspace_def list_set_def)

section \<open>The results table\<close>








lemma main_store:
  "load_urls fs sch data_dir (url_file a) = Inr urls \<Longrightarrow>
   store (main w sch data_dir a dbfile fs)
     = (if 0 < workers a
        then foldl (commit_result w (timeout a)) (setup_database dbfile)
               (as_completed sch
                 (filter (\<lambda>url. url \<notin> get_processed_urls (setup_database dbfile)) urls))
        else setup_database dbfile)"
  by (simp add: main_def Let_def as_completed_def)

lemma main_fetched:
  "load_urls fs sch data_dir (url_file a) = Inr urls \<Longrightarrow>
   fetched (main w sch data_dir a dbfile fs)
     = (if 0 < workers a
        then filter (\<lambda>url. url \<notin> get_processed_urls (setup_database dbfile)) urls
        else [])"
  by (simp add: main_def Let_def)


text \<open>The example run, from no database: both URLs of the file get a row.\<close>

lemma example_load:
  "load_urls example_files example_schedule ''data'' (url_file example_args)
     = Inr [''http://a.test'', ''http://b.test'']"
  by (simp add: load_urls_def example_files_def example_schedule_def example_args_def
      os_path_join_def open_read_def py_strip_def py_split_def isspace_def list_set_def)

lemma example_run_store:
  "store (main example_world example_schedule ''data'' example_args None example_files)
     = [(''http://a.test'', Some 2, ''Success''), (''http://b.test'', None, ''Failed'')]"
  by (subst main_store [OF example_load])
     (simp add: setup_database_def get_processed_urls_def as_completed_def example_args_def
       example_schedule_def commit_result_def save_result_def example_a example_b)










section \<open>Two runs\<close>









section \<open>The scenario of two URLs\<close>

lemma main_files:
  "load_urls fs sch data_dir (url_file a) = Inr urls \<Longrightarrow>
   files (main w sch data_dir a dbfile fs)
     = (if filter (\<lambda>url. url \<notin> get_processed_urls (setup_database dbfile)) urls \<noteq> []
          \<and> workers a \<le> 0 then fs
        else export_to_csv data_dir (store (main w sch data_dir a dbfile fs)) (csv_output a) fs)"
  by (simp add: main_def Let_def)

lemma main_raised:
  "load_urls fs sch data_dir (url_file a) = Inr urls \<Longrightarrow>
   raised (main w sch data_dir a dbfile fs)
     = (if filter (\<lambda>url. url \<notin> get_processed_urls (setup_database dbfile)) urls \<noteq> []
          \<and> workers a \<le> 0 then Some ValueError else None)"
  by (simp add: main_def Let_def)

lemma export_to_csv_path:
  "export_to_csv data_dir db csv_file fs (os_path_join data_dir csv_file) = Some (csv_text db)"
  by (simp add: export_to_csv_def open_write_def Let_def)

lemma scenario_load:
  "fs (os_path_join data_dir f) = Some ''http://a.test http://a.test http://b.test'' \<Longrightarrow>
   load_urls fs sch data_dir f
     = Inr (list_set sch [''http://a.test'', ''http://a.test'', ''http://b.test''])"
  by (simp add: load_urls_def open_read_def py_strip_def py_split_def isspace_def)

text \<open>Whatever the set order and the completion order, the two URLs complete in one of two orders.\<close>

lemma scenario_order:
  "as_completed sch (list_set sch [''http://a.test'', ''http://a.test'', ''http://b.test''])
     = [''http://a.test'', ''http://b.test'']
   \<or> as_completed sch (list_set sch [''http://a.test'', ''http://a.test'', ''http://b.test''])
     = [''http://b.test'', ''http://a.test'']"
  by (simp add: as_completed_def list_set_def)

lemma scenario_fetched:
  "list_set sch [''http://a.test'', ''http://a.test'', ''http://b.test'']
     = [''http://a.test'', ''http://b.test'']
   \<or> list_set sch [''http://a.test'', ''http://a.test'', ''http://b.test'']
     = [''http://b.test'', ''http://a.test'']"
  by (simp add: list_set_def)

lemma csv_ab_lines:
  "length (filter (\<lambda>c. c = LF)
     (csv_text [(''http://a.test'', Some 2, ''Success''), (''http://b.test'', None, ''Failed'')])) = 3"
  by code_simp

lemma csv_ba_lines:
  "length (filter (\<lambda>c. c = LF)
     (csv_text [(''http://b.test'', None, ''Failed''), (''http://a.test'', Some 2, ''Success'')])) = 3"
  by code_simp

lemma csv_ab_records:
  "csv_reader
     (csv_text [(''http://a.test'', Some 2, ''Success''), (''http://b.test'', None, ''Failed'')])
   = [[''URL'', ''Script Count'', ''Status''], [''http://a.test'', ''2'', ''Success''],
      [''http://b.test'', [], ''Failed'']]"
  by code_simp

lemma csv_ba_records:
  "csv_reader
     (csv_text [(''http://b.test'', None, ''Failed''), (''http://a.test'', Some 2, ''Success'')])
   = [[''URL'', ''Script Count'', ''Status''], [''http://b.test'', [], ''Failed''],
      [''http://a.test'', ''2'', ''Success'']]"
  by code_simp

text \<open>
  C6. The URL file holds \<open>http://a.test http://a.test http://b.test\<close>, the table
  is empty, the fetch of \<open>a.test\<close> returns 2 script tags and the fetch of
  \<open>b.test\<close> fails, and the pool can be built. Then, whatever the set order and the
  completion order, the run ends normally, fetches each of the two URLs once, leaves
  exactly the rows \<open>(a.test, 2, Success)\<close> and \<open>(b.test, None, Failed)\<close>, and
  writes a CSV file of 3 lines: the header and the two rows.
\<close>

theorem scenario_two_urls:
  assumes urlfile: "fs (os_path_join data_dir (url_file a))
                   = Some ''http://a.test http://a.test http://b.test''"
    and empty: "setup_database dbfile = []"
    and ra: "process_url w ''http://a.test'' (timeout a) = Inr (''http://a.test'', Some 2, ''Success'')"
    and rb: "process_url w ''http://b.test'' (timeout a) = Inr (''http://b.test'', None, ''Failed'')"
    and pool: "0 < workers a"
  shows "raised (main w sch data_dir a dbfile fs) = None
    \<and> set (fetched (main w sch data_dir a dbfile fs)) = {''http://a.test'', ''http://b.test''}
    \<and> length (fetched (main w sch data_dir a dbfile fs)) = 2
    \<and> set (store (main w sch data_dir a dbfile fs))
        = {(''http://a.test'', Some 2, ''Success''), (''http://b.test'', None, ''Failed'')}
    \<and> length (store (main w sch data_dir a dbfile fs)) = 2
    \<and> files (main w sch data_dir a dbfile fs) (os_path_join data_dir (csv_output a))
        = Some (csv_text (store (main w sch data_dir a dbfile fs)))
    \<and> length (filter (\<lambda>c. c = LF) (csv_text (store (main w sch data_dir a dbfile fs)))) = 3
    \<and> length (csv_reader (csv_text (store (main w sch data_dir a dbfile fs)))) = 3
    \<and> hd (csv_reader (csv_text (store (main w sch data_dir a dbfile fs))))
        = [''URL'', ''Script Count'', ''Status'']
    \<and> set (tl (csv_reader (csv_text (store (main w sch data_dir a dbfile fs)))))
        = {[''http://a.test'', ''2'', ''Success''], [''http://b.test'', [], ''Failed'']}"
proof -
  let ?urls = "list_set sch [''http://a.test'', ''http://a.test'', ''http://b.test'']"
  let ?r = "main w sch data_dir a dbfile fs"
  have load: "load_urls fs sch data_dir (url_file a) = Inr ?urls"
    using urlfile by (rule scenario_load)
  have todo: "filter (\<lambda>url. url \<notin> get_processed_urls []) ?urls = ?urls"
    by (simp add: get_processed_urls_def)
  have ne: "?urls \<noteq> []"
    using scenario_fetched [of sch] by auto
  have raised: "raised ?r = None"
    using pool by (simp add: main_raised [OF load] empty todo)
  have fetched: "fetched ?r = ?urls"
    using pool by (simp add: main_fetched [OF load] empty todo)
  have store: "store ?r = foldl (commit_result w (timeout a)) [] (as_completed sch ?urls)"
    using pool by (simp add: main_store [OF load] todo empty)
  have files: "files ?r (os_path_join data_dir (csv_output a)) = Some (csv_text (store ?r))"
    using pool by (simp add: main_files [OF load] empty todo export_to_csv_path)
  have cases: "store ?r = [(''http://a.test'', Some 2, ''Success''), (''http://b.test'', None, ''Failed'')]
     \<or> store ?r = [(''http://b.test'', None, ''Failed''), (''http://a.test'', Some 2, ''Success'')]"
    using scenario_order [of sch] unfolding store
    by (auto simp: commit_result_def save_result_def ra rb)
  have f: "set (fetched ?r) = {''http://a.test'', ''http://b.test''} \<and> length (fetched ?r) = 2"
    unfolding fetched using scenario_fetched [of sch] by auto
  from cases show ?thesis
  proof
    assume s: "store ?r = [(''http://a.test'', Some 2, ''Success''), (''http://b.test'', None, ''Failed'')]"
    show ?thesis
      using raised f files unfolding s by (simp add: csv_ab_lines csv_ab_records)
  next
    assume s: "store ?r = [(''http://b.test'', None, ''Failed''), (''http://a.test'', Some 2, ''Success'')]"
    show ?thesis
      using raised f files unfolding s by (auto simp add: csv_ba_lines csv_ba_records)
  qed
qed

text \<open>The theorem at the example world, from no database.\<close>

theorem scenario_two_urls_witness:
  "example_files (os_path_join ''data'' (url_file example_args))
     = Some ''http://a.test http://a.test http://b.test''
   \<and> setup_database None = []
   \<and> process_url example_world ''http://a.test'' (timeout example_args)
       = Inr (''http://a.test'', Some 2, ''Success'')
   \<and> process_url example_world ''http://b.test'' (timeout example_args)
       = Inr (''http://b.test'', None, ''Failed'')
   \<and> 0 < workers example_args
   \<and> set (store (main example_world example_schedule ''data'' example_args None example_files))
       = {(''http://a.test'', Some 2, ''Success''), (''http://b.test'', None, ''Failed'')}
   \<and> length (filter (\<lambda>c. c = LF) (csv_text
         (store (main example_world example_schedule ''data'' example_args None example_files))))
       = 3"
proof -
  have h1: "example_files (os_path_join ''data'' (url_file example_args))
              = Some ''http://a.test http://a.test http://b.test''"
    by code_simp
  have h2: "setup_database None = []"
    by (simp add: setup_database_def)
  have h3: "process_url example_world ''http://a.test'' (timeout example_args)
              = Inr (''http://a.test'', Some 2, ''Success'')"
    by (simp add: example_args_def example_a)
  have h4: "process_url example_world ''http://b.test'' (timeout example_args)
              = Inr (''http://b.test'', None, ''Failed'')"
    by (simp add: example_args_def example_b)
  have h5: "0 < workers example_args"
    by (simp add: example_args_def)
  show ?thesis
    using scenario_two_urls [where fs = example_files and data_dir = "''data''"
        and a = example_args and dbfile = None and w = example_world
        and sch = example_schedule] h1 h2 h3 h4 h5
    by simp
qed

section \<open>The exporter and the CSV text\<close>

lemma special_chars: "special COMMA" "special DQUOTE" "special CR" "special LF"
  by (simp_all add: special_def)

lemma chars_distinct:
  "COMMA \<noteq> DQUOTE" "COMMA \<noteq> CR" "COMMA \<noteq> LF" "DQUOTE \<noteq> CR" "DQUOTE \<noteq> LF" "CR \<noteq> LF"
  "DQUOTE \<noteq> COMMA" "CR \<noteq> COMMA" "LF \<noteq> COMMA" "CR \<noteq> DQUOTE" "LF \<noteq> DQUOTE" "LF \<noteq> CR"
  by (simp_all add: COMMA_def DQUOTE_def CR_def LF_def)

lemma start_field_plain:
  "\<not> special c \<Longrightarrow> start_field flds c = ((IN_FIELD, [c], flds), [])"
  by (auto simp: start_field_def special_def)

lemma start_record_plain:
  "\<not> special c \<Longrightarrow> start_record c = ((IN_FIELD, [c], []), [])"
  by (auto simp: start_record_def start_field_def special_def)

lemma in_field_plain:
  "\<not> special c \<Longrightarrow> process_char (IN_FIELD, acc, flds) c = ((IN_FIELD, acc @ [c], flds), [])"
  by (auto simp: special_def)

lemma double_quotes_plain: "\<not> list_ex special f \<Longrightarrow> double_quotes f = f"
  by (induction f) (auto simp: special_def)

text \<open>The reader over the characters of an unquoted field.\<close>

lemma read_plain:
  "\<not> list_ex special f \<Longrightarrow>
   reader_run (IN_FIELD, acc, flds) (f @ rest) = reader_run (IN_FIELD, acc @ f, flds) rest"
  by (induction f arbitrary: acc) (simp_all add: in_field_plain del: process_char.simps)

text \<open>The reader over the body of a quoted field and its closing quote.\<close>

lemma read_quoted:
  "reader_run (IN_QUOTED_FIELD, acc, flds) (double_quotes f @ DQUOTE # rest)
     = reader_run (QUOTE_IN_QUOTED_FIELD, acc @ f, flds) rest"
  by (induction f arbitrary: acc) simp_all

text \<open>After a field, at a comma or at the end of the line, the field joins the record.\<close>

lemma after_field_comma:
  "after_field r f flds \<Longrightarrow>
   reader_run r (COMMA # rest) = reader_run (START_FIELD, [], flds @ [f]) rest"
  by (auto simp: after_field_def chars_distinct start_field_def)

lemma after_field_crlf:
  "after_field r f flds \<Longrightarrow>
   reader_run r (CR # LF # rest) = (flds @ [f]) # reader_run (START_RECORD, [], []) rest"
  by (auto simp: after_field_def chars_distinct start_field_def)

text \<open>The reader over a written field that starts inside a record.\<close>

lemma read_field:
  "\<exists>r. after_field r f flds \<and>
     (\<forall>rest. reader_run (START_FIELD, x, flds) (csv_field f @ rest) = reader_run r rest)"
proof (cases "list_ex special f")
  case True
  then have "\<forall>rest. reader_run (START_FIELD, x, flds) (csv_field f @ rest)
               = reader_run (QUOTE_IN_QUOTED_FIELD, f, flds) rest"
    using read_quoted [of "[]" flds f]
    by (simp add: csv_field_def start_field_def chars_distinct)
  then show ?thesis by (auto simp: after_field_def)
next
  case False
  show ?thesis
  proof (cases f)
    case Nil
    then show ?thesis using False by (auto simp: after_field_def csv_field_def)
  next
    case (Cons c cs)
    with False have c: "\<not> special c" and cs: "\<not> list_ex special cs" by auto
    have w: "csv_field f = c # cs"
      using False double_quotes_plain [OF False] Cons by (simp add: csv_field_def)
    have "\<forall>rest. reader_run (START_FIELD, x, flds) (csv_field f @ rest)
               = reader_run (IN_FIELD, f, flds) rest"
      unfolding w using read_plain [OF cs, of "[c]" flds] Cons
      by (simp add: start_field_plain [OF c])
    then show ?thesis using Cons by (auto simp: after_field_def)
  qed
qed

text \<open>The reader over the fields of a record, from the second field on.\<close>

lemma read_join_fields:
  "cells \<noteq> [] \<Longrightarrow>
   reader_run (START_FIELD, x, flds) (join_fields cells @ CR # LF # rest)
     = (flds @ cells) # reader_run (START_RECORD, [], []) rest"
proof (induction cells arbitrary: x flds rule: join_fields.induct)
  case 1
  then show ?case by simp
next
  case (2 f)
  obtain r where r: "after_field r f flds"
    and "\<And>rest. reader_run (START_FIELD, x, flds) (csv_field f @ rest) = reader_run r rest"
    using read_field [of f flds x] by blast
  then have "reader_run (START_FIELD, x, flds) (join_fields [f] @ CR # LF # rest)
               = reader_run r (CR # LF # rest)"
    by simp
  also have "\<dots> = (flds @ [f]) # reader_run (START_RECORD, [], []) rest"
    using r by (rule after_field_crlf)
  finally show ?case .
next
  case (3 f g gs)
  obtain r where r: "after_field r f flds"
    and "\<And>rest. reader_run (START_FIELD, x, flds) (csv_field f @ rest) = reader_run r rest"
    using read_field [of f flds x] by blast
  then have "reader_run (START_FIELD, x, flds) (join_fields (f # g # gs) @ CR # LF # rest)
               = reader_run r (COMMA # join_fields (g # gs) @ CR # LF # rest)"
    by simp
  also have "\<dots> = reader_run (START_FIELD, [], flds @ [f]) (join_fields (g # gs) @ CR # LF # rest)"
    using r by (rule after_field_comma)
  also have "\<dots> = ((flds @ [f]) @ g # gs) # reader_run (START_RECORD, [], []) rest"
    by (rule "3.IH") simp
  finally show ?case by simp
qed


text \<open>A record starts like a field, unless it starts with a line end.\<close>

lemma start_record_as_field:
  "c \<noteq> CR \<Longrightarrow> c \<noteq> LF \<Longrightarrow>
   reader_run (START_RECORD, x, y) (c # cs) = reader_run (START_FIELD, [], []) (c # cs)"
  by (simp add: start_record_def)

lemma csv_field_head:
  "csv_field f = [] \<and> f = [] \<or> (\<exists>c cs. csv_field f = c # cs \<and> c \<noteq> CR \<and> c \<noteq> LF)"
proof (cases "list_ex special f")
  case True
  then show ?thesis by (simp add: csv_field_def chars_distinct)
next
  case False
  then have "csv_field f = f"
    by (simp add: csv_field_def double_quotes_plain)
  with False show ?thesis
    by (cases f) (auto simp: special_def)
qed

lemma join_fields_head:
  "cells \<noteq> [] \<Longrightarrow> cells \<noteq> [[]] \<Longrightarrow>
   \<exists>c cs. join_fields cells = c # cs \<and> c \<noteq> CR \<and> c \<noteq> LF"
proof (induction cells rule: join_fields.induct)
  case 1
  then show ?case by simp
next
  case (2 f)
  then show ?case using csv_field_head [of f] by auto
next
  case (3 f g gs)
  show ?case using csv_field_head [of f] by (auto simp: chars_distinct)
qed

text \<open>The reader over a written record gives the record back.\<close>

lemma read_writerow:
  "reader_run (START_RECORD, x, y) (writerow cells @ rest)
     = cells # reader_run (START_RECORD, [], []) rest"
proof -
  consider "cells = []" | "cells = [[]]" | "cells \<noteq> []" "cells \<noteq> [[]]" by blast
  then show ?thesis
  proof cases
    case 1
    then show ?thesis
      by (simp add: writerow_def start_record_def chars_distinct)
  next
    case 2
    then show ?thesis
      by (simp add: writerow_def start_record_def start_field_def chars_distinct)
  next
    case 3
    then obtain c cs where j: "join_fields cells = c # cs" and c: "c \<noteq> CR" "c \<noteq> LF"
      using join_fields_head by blast
    have "reader_run (START_RECORD, x, y) (writerow cells @ rest)
            = reader_run (START_RECORD, x, y) (c # (cs @ CR # LF # rest))"
      using 3 j by (simp add: writerow_def)
    also have "\<dots> = reader_run (START_FIELD, [], []) (c # (cs @ CR # LF # rest))"
      using c by (rule start_record_as_field)
    also have "\<dots> = reader_run (START_FIELD, [], []) (join_fields cells @ CR # LF # rest)"
      using j by simp
    also have "\<dots> = ([] @ cells) # reader_run (START_RECORD, [], []) rest"
      using 3(1) by (rule read_join_fields)
    finally show ?thesis by simp
  qed
qed

lemma start_record_any:
  "reader_run (START_RECORD, x, y) s = reader_run (START_RECORD, [], []) s"
  by (cases s) simp_all

lemma read_writerow_list:
  "reader_run (START_RECORD, x, y) (concat (map writerow records) @ rest)
     = records @ reader_run (START_RECORD, [], []) rest"
proof (induction records arbitrary: x y)
  case Nil
  show ?case using start_record_any [of x y rest] by simp
next
  case (Cons r rs)
  then show ?case by (simp add: read_writerow del: reader_run.simps)
qed


text \<open>Reading the exported text: the header, then the cells of each row, in order.\<close>

lemma csv_reader_csv_text:
  "csv_reader (csv_text db) = [''URL'', ''Script Count'', ''Status''] # map row_cells (select_all db)"
proof -
  have "csv_text db
          = concat (map writerow ([''URL'', ''Script Count'', ''Status''] # map row_cells (select_all db))) @ []"
    by (simp add: csv_text_def writerows_def Let_def comp_def)
  then show ?thesis
    unfolding csv_reader_def
    using read_writerow_list [of "[]" "[]"
        "[''URL'', ''Script Count'', ''Status''] # map row_cells (select_all db)" "[]"]
    by simp
qed

subsection \<open>Numerals\<close>

lemma digit_value_digit_char: "d < 10 \<Longrightarrow> digit_value (digit_char d) = Some d"
  by (simp add: digit_value_def digit_char_def)

lemma digit_char_not_minus: "d < 10 \<Longrightarrow> digit_char d \<noteq> CHR ''-''"
  using digit_value_digit_char [of d] by (auto simp: digit_value_def)

lemma digits_value_append:
  "digits_value acc (xs @ [c])
     = (case digits_value acc xs of None \<Rightarrow> None
        | Some v \<Rightarrow> (case digit_value c of None \<Rightarrow> None | Some d \<Rightarrow> Some (10 * v + d)))"
  by (induction xs arbitrary: acc) (auto split: option.splits)

lemma digits_value_str_nat: "digits_value 0 (str_nat n) = Some n"
proof (induction n rule: str_nat.induct)
  case (1 n)
  show ?case
  proof (cases "n < 10")
    case True
    then show ?thesis by (simp add: digit_value_digit_char)
  next
    case False
    then have "digits_value 0 (str_nat n)
                 = digits_value 0 (str_nat (n div 10) @ [digit_char (n mod 10)])"
      by (subst str_nat.simps) simp
    also have "\<dots> = Some (10 * (n div 10) + n mod 10)"
      using 1 False by (simp add: digits_value_append digit_value_digit_char)
    finally show ?thesis by simp
  qed
qed

lemma str_nat_head: "\<exists>c cs. str_nat n = c # cs \<and> c \<noteq> CHR ''-''"
proof (induction n rule: str_nat.induct)
  case (1 n)
  show ?case
  proof (cases "n < 10")
    case True
    then show ?thesis by (simp add: digit_char_not_minus)
  next
    case False
    with 1 obtain c cs where "str_nat (n div 10) = c # cs" "c \<noteq> CHR ''-''" by blast
    with False show ?thesis by (subst str_nat.simps) simp
  qed
qed

lemma str_int_nonempty: "str_int i \<noteq> []"
  using str_nat_head [of "nat i"] by (auto simp: str_int_def)

lemma py_int_str_int: "py_int (str_int i) = Some i"
proof (cases "i < 0")
  case True
  obtain c cs where "str_nat (nat (- i)) = c # cs" using str_nat_head by blast
  with True show ?thesis
    using digits_value_str_nat [of "nat (- i)"] by (simp add: py_int_def str_int_def)
next
  case False
  obtain c cs where h: "str_nat (nat i) = c # cs" "c \<noteq> CHR ''-''" using str_nat_head by blast
  with False show ?thesis
    using digits_value_str_nat [of "nat i"] by (simp add: py_int_def str_int_def)
qed

lemma result_of_row_cells: "result_of_cells (row_cells r) = Some r"
  by (cases r) (auto simp: result_of_cells_def row_cells_def cell_int_def str_int_nonempty
      py_int_str_int split: option.splits)

lemma those_result_of_cells: "those (map (result_of_cells \<circ> row_cells) rows) = Some rows"
  by (induction rows) (simp_all add: result_of_row_cells)

text \<open>The text written for the example rows, with its quoted fields.\<close>

lemma example_rows_text:
  "csv_text example_rows
     = ''URL,Script Count,Status'' @ [CR, LF]
       @ [DQUOTE] @ ''http://a.test/?q=1,2'' @ [DQUOTE] @ '',2,Success'' @ [CR, LF]
       @ [DQUOTE, CHR ''a'', DQUOTE, DQUOTE, CHR ''b'', DQUOTE, COMMA, COMMA,
          DQUOTE, CHR ''F'', CR, LF, CHR ''x'', DQUOTE, CR, LF]
       @ '',-45,'' @ [CR, LF]"
  by code_simp

text \<open>
  C7. \<open>export_to_csv\<close> leaves at the destination path the CSV text of the table,
  whatever that path held before; in both scripts. The text is the header line
  \<open>URL,Script Count,Status\<close> followed by the line of each row in the order of the
  \<open>SELECT\<close>; read as CSV it is the header record and then one record per row, in
  that order. A row whose script count is \<open>None\<close> has an empty second cell: its
  line has nothing between the two commas.
\<close>

theorem export_to_csv_rows:
  "export_to_csv data_dir db csv_file fs (os_path_join data_dir csv_file) = Some (csv_text db)
   \<and> ws_export_to_csv db csv_file fs csv_file = Some (csv_text db)
   \<and> csv_text db
       = writerow [''URL'', ''Script Count'', ''Status'']
         @ concat (map (\<lambda>r. writerow (row_cells r)) (select_all db))
   \<and> writerow [''URL'', ''Script Count'', ''Status''] = ''URL,Script Count,Status'' @ [CR, LF]
   \<and> csv_reader (csv_text db)
       = [''URL'', ''Script Count'', ''Status''] # map row_cells (select_all db)
   \<and> row_cells (url, None, status) = [url, [], status]
   \<and> writerow (row_cells (url, None, status))
       = csv_field url @ [COMMA, COMMA] @ csv_field status @ [CR, LF]"
proof -
  have header: "writerow [''URL'', ''Script Count'', ''Status''] = ''URL,Script Count,Status'' @ [CR, LF]"
    by code_simp
  have ws: "ws_export_to_csv db csv_file fs csv_file = Some (csv_text db)"
    by (simp add: ws_export_to_csv_def open_write_def csv_text_def Let_def)
  have body: "csv_text db
       = writerow [''URL'', ''Script Count'', ''Status'']
         @ concat (map (\<lambda>r. writerow (row_cells r)) (select_all db))"
    by (simp only: csv_text_def writerows_def Let_def)
  have cells: "row_cells (url, None, status) = [url, [], status]"
    by (simp add: row_cells_def cell_int_def)
  have line: "writerow (row_cells (url, None, status))
       = csv_field url @ [COMMA, COMMA] @ csv_field status @ [CR, LF]"
    unfolding cells by (simp add: writerow_def csv_field_def)
  show ?thesis
    using export_to_csv_path [of data_dir db csv_file fs] ws body header
      csv_reader_csv_text [of db] cells line
    by (intro conjI)
qed

text \<open>
  The theorem at the example rows, written over a file that exists. The third
  record has an empty second cell.
\<close>

theorem export_to_csv_rows_witness:
  "export_to_csv ''data'' example_rows ''results.csv''
      [''data/results.csv'' \<mapsto> ''old text''] ''data/results.csv''
     = Some (csv_text example_rows)
   \<and> csv_reader (csv_text example_rows)
       = [[''URL'', ''Script Count'', ''Status''],
          [''http://a.test/?q=1,2'', ''2'', ''Success''],
          [[CHR ''a'', DQUOTE, CHR ''b''], [], [CHR ''F'', CR, LF, CHR ''x'']],
          [[], ''-45'', []]]"
proof -
  have "os_path_join ''data'' ''results.csv'' = ''data/results.csv''"
    by code_simp
  moreover have "map row_cells (select_all example_rows)
      = [[''http://a.test/?q=1,2'', ''2'', ''Success''],
          [[CHR ''a'', DQUOTE, CHR ''b''], [], [CHR ''F'', CR, LF, CHR ''x'']],
          [[], ''-45'', []]]"
    by code_simp
  moreover have "export_to_csv ''data'' example_rows ''results.csv''
      [''data/results.csv'' \<mapsto> ''old text''] (os_path_join ''data'' ''results.csv'')
     = Some (csv_text example_rows)
   \<and> csv_reader (csv_text example_rows)
       = [''URL'', ''Script Count'', ''Status''] # map row_cells (select_all example_rows)"
    using export_to_csv_rows [of "''data''" example_rows "''results.csv''"
        "[''data/results.csv'' \<mapsto> ''old text'']"]
    by blast
  ultimately show ?thesis
    by simp
qed

text \<open>
  C8. Reading the exported text back gives the rows of the \<open>SELECT\<close>, in the same
  order, hence the same set of rows.
\<close>

theorem export_round_trip:
  "read_results (csv_text db) = Some (select_all db)
   \<and> map_option set (read_results (csv_text db)) = Some (set (select_all db))"
  by (simp add: read_results_def csv_reader_csv_text those_result_of_cells select_all_def)

text \<open>The theorem at the example rows, with the text that is written and read.\<close>

theorem export_round_trip_witness:
  "read_results (csv_text example_rows) = Some example_rows
   \<and> csv_text example_rows
     = ''URL,Script Count,Status'' @ [CR, LF]
       @ [DQUOTE] @ ''http://a.test/?q=1,2'' @ [DQUOTE] @ '',2,Success'' @ [CR, LF]
       @ [DQUOTE, CHR ''a'', DQUOTE, DQUOTE, CHR ''b'', DQUOTE, COMMA, COMMA,
          DQUOTE, CHR ''F'', CR, LF, CHR ''x'', DQUOTE, CR, LF]
       @ '',-45,'' @ [CR, LF]"
  using export_round_trip [of example_rows] example_rows_text
  by (simp add: select_all_def)

section \<open>The two scripts\<close>

text \<open>
  C9. When the network answers the two user agents alike, the functions of
  \<open>web_scraper_latest.py\<close> give what the functions of \<open>url_checker.py\<close> give:
  \<open>load_urls\<close> and \<open>export_to_csv\<close> on the path that \<open>url_checker.py\<close> builds in
  its data directory, \<open>get_processed_urls\<close>, \<open>process_url\<close> and \<open>save_result\<close> on
  the same arguments, and \<open>main\<close> on the command line with the two paths resolved in
  the data directory.
\<close>

theorem scripts_agree:
  assumes agents:
    "\<forall>url tmo. requests_get w url ws_user_agent tmo = requests_get w url user_agent tmo"
  shows "ws_load_urls fs sch (os_path_join data_dir f) = load_urls fs sch data_dir f
    \<and> ws_get_processed_urls db = get_processed_urls db
    \<and> ws_process_url w url tmo = process_url w url tmo
    \<and> ws_save_result db url c s = save_result db url c s
    \<and> ws_export_to_csv db (os_path_join data_dir csv_file) fs
        = export_to_csv data_dir db csv_file fs
    \<and> ws_main w sch
         (a\<lparr>url_file := os_path_join data_dir (url_file a),
            csv_output := os_path_join data_dir (csv_output a)\<rparr>) dbfile fs
        = main w sch data_dir a dbfile fs"
proof -
  have p: "ws_process_url w = process_url w"
    using agents by (intro ext) (simp add: ws_process_url_cases process_url_cases)
  have s: "\<And>db url c s. ws_save_result db url c s = save_result db url c s"
    by (simp add: ws_save_result_def save_result_def)
  have c: "\<And>tmo. ws_commit_result w tmo = commit_result w tmo"
    by (intro ext) (simp add: ws_commit_result_def commit_result_def p s split: sum.splits)
  have l: "\<And>f. ws_load_urls fs sch (os_path_join data_dir f) = load_urls fs sch data_dir f"
    by (simp add: ws_load_urls_def load_urls_def Let_def)
  have g: "\<And>db. ws_get_processed_urls db = get_processed_urls db"
    by (simp add: ws_get_processed_urls_def get_processed_urls_def)
  have e: "\<And>db csv_file. ws_export_to_csv db (os_path_join data_dir csv_file) fs
        = export_to_csv data_dir db csv_file fs"
    by (simp add: ws_export_to_csv_def export_to_csv_def csv_text_def Let_def)
  have d: "\<And>db. ws_setup_database db = setup_database db"
    by (simp add: ws_setup_database_def setup_database_def)
  have m: "ws_main w sch
         (a\<lparr>url_file := os_path_join data_dir (url_file a),
            csv_output := os_path_join data_dir (csv_output a)\<rparr>) dbfile fs
        = main w sch data_dir a dbfile fs"
    by (simp add: ws_main_def main_def l g e d c Let_def split: sum.splits)
  show ?thesis
    using p s l g e m by simp
qed

text \<open>
  The theorem at the example world, whose answers do not depend on the user agent.
\<close>

theorem scripts_agree_witness:
  "(\<forall>url tmo. requests_get example_world url ws_user_agent tmo
       = requests_get example_world url user_agent tmo)
   \<and> ws_process_url example_world ''http://a.test'' 10
       = Inr (''http://a.test'', Some 2, ''Success'')
   \<and> ws_main example_world example_schedule
         (example_args\<lparr>url_file := os_path_join ''data'' (url_file example_args),
            csv_output := os_path_join ''data'' (csv_output example_args)\<rparr>) None example_files
       = main example_world example_schedule ''data'' example_args None example_files"
proof -
  have h: "\<forall>url tmo. requests_get example_world url ws_user_agent tmo
       = requests_get example_world url user_agent tmo"
    by (simp add: example_world_def)
  show ?thesis
    using scripts_agree [OF h, of example_files example_schedule "''data''" "url_file example_args"
        "[]" "''http://a.test''" 10 None "[]" "[]" example_args None] h
    by (simp add: example_a)
qed

section \<open>Every order has a schedule\<close>

text \<open>
  The model takes the iteration order of a set and the completion order of the
  futures from rank functions. Nothing is lost: each order of the elements is the
  order of a schedule, so a theorem about all schedules is a theorem about all orders.
\<close>

lemma map_position: "distinct ys \<Longrightarrow> map (position ys) ys = [0..<length ys]"
proof (induction ys)
  case Nil
  then show ?case by simp
next
  case (Cons y ys)
  have "map (position (y # ys)) ys = map (Suc \<circ> position ys) ys"
    using Cons.prems by (intro map_cong) (auto simp: position_def)
  also have "\<dots> = map Suc (map (position ys) ys)" by simp
  also have "\<dots> = map Suc [0..<length ys]" using Cons by simp
  finally have rest: "map (position (y # ys)) ys = [Suc 0..<Suc (length ys)]"
    by (simp add: map_Suc_upt)
  have first: "position (y # ys) y = 0"
    by (simp add: position_def)
  have "[0..<Suc (length ys)] = 0 # [Suc 0..<Suc (length ys)]"
    by (simp add: upt_conv_Cons del: upt_Suc)
  then show ?case
    using rest first by (simp del: upt_Suc)
qed

lemma sort_key_position:
  assumes "distinct ys" "distinct xs" "set xs = set ys"
  shows "sort_key (position ys) xs = ys"
proof -
  let ?f = "position ys"
  have m: "map ?f ys = [0..<length ys]" using assms(1) by (rule map_position)
  have "distinct (map ?f ys)" by (simp add: m)
  then have inj: "inj_on ?f (set ys)" by (simp add: distinct_map)
  have "map ?f (sort_key ?f xs) = map ?f ys"
  proof (rule sorted_distinct_set_unique)
    show "sorted (map ?f (sort_key ?f xs))" by (rule sorted_sort_key)
    show "distinct (map ?f (sort_key ?f xs))"
      using inj assms by (simp add: distinct_map)
    show "sorted (map ?f ys)" by (simp add: m)
    show "distinct (map ?f ys)" by (simp add: m)
    show "set (map ?f (sort_key ?f xs)) = set (map ?f ys)" using assms by simp
  qed
  moreover have "inj_on ?f (set (sort_key ?f xs) \<union> set ys)"
    using inj assms(3) by simp
  ultimately show ?thesis
    by (simp add: inj_on_map_eq_map)
qed

lemma every_order_list_set:
  "distinct ys \<Longrightarrow> set ys = set xs \<Longrightarrow> list_set \<lparr>set_rank = position ys, finish_time = t\<rparr> xs = ys"
  by (simp add: list_set_def sort_key_position)

lemma every_order_as_completed:
  "distinct ys \<Longrightarrow> distinct xs \<Longrightarrow> set ys = set xs \<Longrightarrow>
   as_completed \<lparr>set_rank = r, finish_time = position ys\<rparr> xs = ys"
  by (simp add: as_completed_def sort_key_position)

end
